theory Spec2Isabelle
  imports Complex_Main "HOL-Library.AList"
begin

section \<open>Configuration\<close>

text \<open>The constants of \<^verbatim>\<open>camera-watchdog.py\<close>, lines 26 to 41.\<close>

definition MAX_RETRIES :: nat where
  "MAX_RETRIES = 5"

definition BASE_WAIT_SECONDS :: int where
  "BASE_WAIT_SECONDS = 30"

definition WAIT_INCREMENT_SECONDS :: int where
  "WAIT_INCREMENT_SECONDS = 30"

definition STATUS_FILE :: string where
  "STATUS_FILE = ''/tmp/crowsnest_watchdog_status.json''"

definition THROTTLE_FILE :: string where
  "THROTTLE_FILE = ''/tmp/crowsnest_watchdog_throttle.json''"

definition LOCK_FILE :: string where
  "LOCK_FILE = ''/tmp/crowsnest_watchdog.lock''"

definition URL :: string where
  "URL = ''http://localhost:8080/snapshot''"

definition SERVICE_NAME :: string where
  "SERVICE_NAME = ''crowsnest''"

definition RUN_EVERY_N_AFTER_FAILURE :: int where
  "RUN_EVERY_N_AFTER_FAILURE = 10"

section \<open>Python values\<close>

text \<open>
  The values \<^verbatim>\<open>json.load\<close> produces and \<^verbatim>\<open>json.dump\<close> accepts. Python's
  \<^verbatim>\<open>json\<close> reads \<^verbatim>\<open>NaN\<close> and \<^verbatim>\<open>Infinity\<close> too, so a float is a finite
  real or one of the three special values. A dict keeps insertion order: it is an
  association list, read by \<open>map_of\<close> and written by \<open>AList.update\<close> (an existing key keeps
  its place, a new key goes to the end).
\<close>

datatype pyfloat = Finite real | PosInf | NegInf | NaN

datatype json =
    JNull
  | JBool bool
  | JInt int
  | JFloat pyfloat
  | JStr string
  | JArray "json list"
  | JObject "(string \<times> json) list"

text \<open>The exceptions the modelled code can raise.\<close>

datatype exn = AttributeError | TypeError | ValueError | OverflowError | OSError

text \<open>\<^verbatim>\<open>bool(v)\<close>: Python's truth value of a JSON value. It never raises.\<close>

fun py_bool :: "json \<Rightarrow> bool" where
  "py_bool JNull = False"
| "py_bool (JBool b) = b"
| "py_bool (JInt n) = (n \<noteq> 0)"
| "py_bool (JFloat f) = (f \<noteq> Finite 0)"
| "py_bool (JStr s) = (s \<noteq> [])"
| "py_bool (JArray xs) = (xs \<noteq> [])"
| "py_bool (JObject kvs) = (kvs \<noteq> [])"

text \<open>
  \<^verbatim>\<open>int(v)\<close>. A float is truncated towards zero, an infinity raises OverflowError and a
  NaN ValueError; \<^verbatim>\<open>None\<close>, a list and a dict raise TypeError. What \<^verbatim>\<open>int\<close> makes of
  a string is the interpreter's business: the parameter \<open>int_of_str\<close> gives the number, or
  \<open>None\<close> where \<^verbatim>\<open>int\<close> raises ValueError.
\<close>

fun py_int :: "(string \<Rightarrow> int option) \<Rightarrow> json \<Rightarrow> exn + int" where
  "py_int ios JNull = Inl TypeError"
| "py_int ios (JBool b) = Inr (if b then 1 else 0)"
| "py_int ios (JInt n) = Inr n"
| "py_int ios (JFloat (Finite r)) = Inr (if 0 \<le> r then \<lfloor>r\<rfloor> else \<lceil>r\<rceil>)"
| "py_int ios (JFloat PosInf) = Inl OverflowError"
| "py_int ios (JFloat NegInf) = Inl OverflowError"
| "py_int ios (JFloat NaN) = Inl ValueError"
| "py_int ios (JStr s) = (case ios s of None \<Rightarrow> Inl ValueError | Some n \<Rightarrow> Inr n)"
| "py_int ios (JArray xs) = Inl TypeError"
| "py_int ios (JObject kvs) = Inl TypeError"

text \<open>\<^verbatim>\<open>d.get(key, default)\<close> on a dict.\<close>

type_synonym dict = "(string \<times> json) list"

definition dict_get :: "dict \<Rightarrow> string \<Rightarrow> json \<Rightarrow> json" where
  "dict_get d k dflt = (case map_of d k of None \<Rightarrow> dflt | Some v \<Rightarrow> v)"

section \<open>Health prober\<close>

text \<open>
  What \<^verbatim>\<open>urllib.request.urlopen\<close> does on one call: it returns a response object, whose
  \<^verbatim>\<open>status\<close> attribute may be missing (then the code reads 200); or it raises
  \<^verbatim>\<open>HTTPError\<close>, which carries the server's status code; or it raises another exception.
  The string is \<^verbatim>\<open>str(e)\<close>. The trace lines printed on the way are not modelled.
\<close>

datatype urlopen_outcome =
    Response "int option"
  | RaisesHTTPError int string
  | RaisesOther string

fun http_get_status :: "urlopen_outcome \<Rightarrow> int option \<times> string option" where
  "http_get_status (Response st) = (Some (case st of None \<Rightarrow> 200 | Some c \<Rightarrow> c), None)"
| "http_get_status (RaisesHTTPError c s) = (Some c, Some (''HTTPError: '' @ s))"
| "http_get_status (RaisesOther s) = (None, Some (''RequestError: '' @ s))"

section \<open>The world outside the program\<close>

text \<open>
  The state an invocation changes: the files (a path holds a text, or is absent), the
  number of readings of the clock taken so far, and the calls made to the outside, in
  order: a probe of the endpoint with the status code it gave, a restart of the service,
  a \<^verbatim>\<open>time.sleep\<close> with its duration in seconds.
\<close>

datatype event = Probe nat "int option" | Restart nat | Sleep int

record world =
  files :: "string \<rightharpoonup> string"
  ticks :: nat
  trace :: "event list"

text \<open>
  What the outside answers. \<open>dumps\<close> is the list of chunks \<^verbatim>\<open>json.dump\<close> (with
  \<^verbatim>\<open>indent=2, sort_keys=True\<close>) writes for a value; \<open>loads\<close> is \<^verbatim>\<open>json.load\<close> on
  a file's text, \<open>None\<close> where it raises; \<open>clock\<close> gives the k-th reading of
  \<^verbatim>\<open>utc_now_iso\<close>; \<open>os_open\<close> is the descriptor of the lock file, \<open>None\<close> where the
  import of \<^verbatim>\<open>fcntl\<close> or \<^verbatim>\<open>os.open\<close> raises; \<open>flock\<close> is what \<^verbatim>\<open>fcntl.flock\<close> does;
  \<open>urlopen\<close> is the outcome of the probe of attempt i; \<open>restart_result\<close> is what
  \<^verbatim>\<open>restart_service\<close> returns at attempt i (it catches every exception of
  \<^verbatim>\<open>subprocess.run\<close> itself and returns a pair in each case); \<open>write_fault\<close> says, for a
  path handed to \<^verbatim>\<open>write_json_atomic\<close>, which of its steps raises, \<open>None\<close> when none
  does.
\<close>

text \<open>
  The steps of \<^verbatim>\<open>write_json_atomic\<close> that can raise: \<^verbatim>\<open>open\<close>, \<^verbatim>\<open>json.dump\<close> (after
  it has written at most the given number of chunks), \<^verbatim>\<open>flush\<close>, \<^verbatim>\<open>os.fsync\<close> and
  \<^verbatim>\<open>os.replace\<close>.
\<close>

datatype fault = At_open | At_dump nat | At_flush | At_fsync | At_replace

datatype flock_outcome = Granted | WouldBlock | FlockRaises

record env =
  dumps :: "json \<Rightarrow> string list"
  loads :: "string \<Rightarrow> json option"
  int_of_str :: "string \<Rightarrow> int option"
  clock :: "nat \<Rightarrow> string"
  os_open :: "nat option"
  flock :: flock_outcome
  urlopen :: "nat \<Rightarrow> urlopen_outcome"
  restart_result :: "nat \<Rightarrow> bool \<times> string"
  write_fault :: "string \<Rightarrow> fault option"

definition utc_now_iso :: "env \<Rightarrow> world \<Rightarrow> string \<times> world" where
  "utc_now_iso env w = (clock env (ticks w), w\<lparr>ticks := Suc (ticks w)\<rparr>)"

section \<open>State store\<close>

text \<open>
  \<^verbatim>\<open>read_json\<close>: any exception of \<^verbatim>\<open>open\<close> or \<^verbatim>\<open>json.load\<close> gives the empty dict; a
  path without a text stands for every failing \<^verbatim>\<open>open\<close>. What \<^verbatim>\<open>json.load\<close> returns
  is returned as it is.
\<close>

definition read_json :: "env \<Rightarrow> string \<Rightarrow> world \<Rightarrow> json" where
  "read_json env path w =
     (case files w path of
        None \<Rightarrow> JObject []
      | Some text \<Rightarrow> (case loads env text of None \<Rightarrow> JObject [] | Some v \<Rightarrow> v))"

text \<open>
  \<^verbatim>\<open>write_json_atomic\<close> is a sequence of file operations: \<^verbatim>\<open>open(tmp_path, "w")\<close>
  creates or empties the temporary file, \<^verbatim>\<open>json.dump\<close> writes its chunks to it,
  \<^verbatim>\<open>flush\<close>, \<^verbatim>\<open>os.fsync\<close> and the close at the end of the \<^verbatim>\<open>with\<close> block leave the
  visible texts as they are, and \<^verbatim>\<open>os.replace\<close> renames the temporary file onto the
  target in one step. A crash, or an exception, after k operations leaves the files as the
  first k operations made them.
\<close>

datatype fs_op =
    Open_w string
  | Write_chunk string string
  | Flush string
  | Fsync string
  | Close string
  | Replace string string

fun exec_op :: "fs_op \<Rightarrow> (string \<rightharpoonup> string) \<Rightarrow> (string \<rightharpoonup> string)" where
  "exec_op (Open_w p) fs = fs(p \<mapsto> [])"
| "exec_op (Write_chunk p s) fs = (case fs p of None \<Rightarrow> fs | Some t \<Rightarrow> fs(p \<mapsto> t @ s))"
| "exec_op (Flush p) fs = fs"
| "exec_op (Fsync p) fs = fs"
| "exec_op (Close p) fs = fs"
| "exec_op (Replace a b) fs = (case fs a of None \<Rightarrow> fs | Some t \<Rightarrow> (fs(a := None))(b \<mapsto> t))"

primrec run_ops :: "fs_op list \<Rightarrow> (string \<rightharpoonup> string) \<Rightarrow> (string \<rightharpoonup> string)" where
  "run_ops [] fs = fs"
| "run_ops (op # ops) fs = run_ops ops (exec_op op fs)"

definition write_json_atomic_ops :: "string \<Rightarrow> string list \<Rightarrow> fs_op list" where
  "write_json_atomic_ops path chunks =
     (let tmp_path = path @ ''.tmp''
      in [Open_w tmp_path] @ map (Write_chunk tmp_path) chunks
         @ [Flush tmp_path, Fsync tmp_path, Close tmp_path, Replace tmp_path path])"

text \<open>
  The number of file operations that have completed when a step raises, for a
  serialisation of n chunks. A fault inside the \<^verbatim>\<open>with\<close> block closes the file on
  the way out, which changes no visible text.
\<close>

fun completed_ops :: "fault \<Rightarrow> nat \<Rightarrow> nat" where
  "completed_ops At_open n = 0"
| "completed_ops (At_dump k) n = 1 + min k n"
| "completed_ops At_flush n = 1 + n"
| "completed_ops At_fsync n = 2 + n"
| "completed_ops At_replace n = 4 + n"

definition write_json_atomic :: "env \<Rightarrow> string \<Rightarrow> json \<Rightarrow> world \<Rightarrow> (exn + unit) \<times> world" where
  "write_json_atomic env path data w =
     (let ops = write_json_atomic_ops path (dumps env data)
      in case write_fault env path of
           None \<Rightarrow> (Inr (), w\<lparr>files := run_ops ops (files w)\<rparr>)
         | Some f \<Rightarrow>
             (Inl OSError,
              w\<lparr>files := run_ops (take (completed_ops f (length (dumps env data))) ops)
                             (files w)\<rparr>))"

section \<open>Throttle policy\<close>

text \<open>
  \<^verbatim>\<open>should_throttle\<close> reads the throttle file and decides on the value read. The
  first statement after the read calls \<^verbatim>\<open>state.get\<close>, which only a dict has: every
  other value raises AttributeError there. From then on the state is a dict.
  \<open>throttle_decision\<close> is the body of the function from that statement on.
\<close>

definition throttle_decision :: "(string \<Rightarrow> int option) \<Rightarrow> json \<Rightarrow> exn + (bool \<times> dict)" where
  "throttle_decision ios v =
     (case v of
        JObject state \<Rightarrow>
          (let last_failed = py_bool (dict_get state ''last_failed'' (JBool False))
           in if \<not> last_failed
              then Inr (False, AList.update ''counter'' (JInt 0) state)
              else (case py_int ios (dict_get state ''counter'' (JInt 0)) of
                      Inl e \<Rightarrow> Inl e
                    | Inr n \<Rightarrow>
                        (let counter = n + 1;
                             state' = AList.update ''counter'' (JInt counter) state
                         in if counter mod RUN_EVERY_N_AFTER_FAILURE \<noteq> 0
                            then Inr (True, state')
                            else Inr (False, state'))))
      | _ \<Rightarrow> Inl AttributeError)"

definition should_throttle :: "env \<Rightarrow> world \<Rightarrow> exn + (bool \<times> dict)" where
  "should_throttle env w = throttle_decision (int_of_str env) (read_json env THROTTLE_FILE w)"

definition update_throttle_state :: "env \<Rightarrow> dict \<Rightarrow> bool \<Rightarrow> world \<Rightarrow> (exn + unit) \<times> world" where
  "update_throttle_state env state last_failed w =
     (let s1 = AList.update ''last_failed'' (JBool last_failed) state;
          s2 = (if \<not> last_failed then AList.update ''counter'' (JInt 0) s1 else s1);
          (ts, w1) = utc_now_iso env w;
          s3 = AList.update ''updated_at'' (JStr ts) s2
      in write_json_atomic env THROTTLE_FILE (JObject s3) w1)"

text \<open>
  \<^verbatim>\<open>write_status\<close>: the payload starts with the two keys of the dict display and takes
  the entries of \<^verbatim>\<open>details\<close> in order, as \<^verbatim>\<open>**details\<close> does.
\<close>

definition write_status :: "env \<Rightarrow> bool \<Rightarrow> dict \<Rightarrow> world \<Rightarrow> (exn + unit) \<times> world" where
  "write_status env ok details w =
     (let (ts, w1) = utc_now_iso env w;
          payload = foldl (\<lambda>d (k, v). AList.update k v d)
                      [(''updated_at'', JStr ts), (''succeeded'', JBool ok)] details
      in write_json_atomic env STATUS_FILE (JObject payload) w1)"

section \<open>Retry loop and run driver\<close>

text \<open>The local variables of \<^verbatim>\<open>main\<close> that the loop updates.\<close>

record loop_state =
  attempts :: "dict list"
  wait :: int
  succeeded :: bool
  restart_errors :: "string list"

definition opt_int :: "int option \<Rightarrow> json" where
  "opt_int c = (case c of None \<Rightarrow> JNull | Some n \<Rightarrow> JInt n)"

definition opt_str :: "string option \<Rightarrow> json" where
  "opt_str e = (case e of None \<Rightarrow> JNull | Some s \<Rightarrow> JStr s)"

text \<open>
  The body of the \<^verbatim>\<open>for\<close> loop, for the index i. The flag returned is true where the
  body leaves the loop by \<^verbatim>\<open>break\<close>. The three assignments to \<^verbatim>\<open>attempts[-1]\<close> update
  the record appended in the same pass.
\<close>

definition attempt :: "env \<Rightarrow> nat \<Rightarrow> loop_state \<times> world \<Rightarrow> bool \<times> loop_state \<times> world" where
  "attempt env i sw =
     (let (s, w) = sw;
          (code, err) = http_get_status (urlopen env i);
          w1 = w\<lparr>trace := trace w @ [Probe i code]\<rparr>;
          (ts, w2) = utc_now_iso env w1;
          rec = [(''try'', JInt (int i)), (''http_status'', opt_int code),
                 (''http_error'', opt_str err), (''checked_at'', JStr ts)]
      in if code = Some 200
         then (True, s\<lparr>attempts := attempts s @ [rec], succeeded := True\<rparr>, w2)
         else
           (let (ok, msg) = restart_result env i;
                w3 = w2\<lparr>trace := trace w2 @ [Restart i]\<rparr>;
                rec' = AList.update ''restart_msg'' (JStr msg)
                         (AList.update ''restart_ok'' (JBool ok)
                           (AList.update ''restart_called'' (JBool True) rec));
                s2 = s\<lparr>attempts := attempts s @ [rec']\<rparr>;
                s3 = (if \<not> ok then s2\<lparr>restart_errors := restart_errors s2 @ [msg]\<rparr> else s2)
            in if i < MAX_RETRIES
               then (False, s3\<lparr>wait := wait s3 + WAIT_INCREMENT_SECONDS\<rparr>,
                     w3\<lparr>trace := trace w3 @ [Sleep (wait s3)]\<rparr>)
               else (False, s3, w3)))"

text \<open>The \<^verbatim>\<open>for\<close> loop over the indices still to come.\<close>

fun retry_loop :: "env \<Rightarrow> nat list \<Rightarrow> loop_state \<times> world \<Rightarrow> loop_state \<times> world" where
  "retry_loop env [] sw = sw"
| "retry_loop env (i # is) sw =
     (case attempt env i sw of
        (True, sw') \<Rightarrow> sw'
      | (False, sw') \<Rightarrow> retry_loop env is sw')"

text \<open>
  The loop as \<^verbatim>\<open>main\<close> starts it: \<^verbatim>\<open>range(1, MAX_RETRIES + 1)\<close>, no attempts yet,
  the first wait at its base value.
\<close>

definition main_loop :: "env \<Rightarrow> world \<Rightarrow> loop_state \<times> world" where
  "main_loop env w =
     retry_loop env [1 ..< MAX_RETRIES + 1]
       (\<lparr>attempts = [], wait = BASE_WAIT_SECONDS, succeeded = False, restart_errors = []\<rparr>, w)"

text \<open>
  The lock block at the head of \<^verbatim>\<open>main\<close>. \<^verbatim>\<open>os.open\<close> with \<^verbatim>\<open>O_CREAT\<close> creates the
  lock file where it is missing. The result says whether another instance holds the lock
  (\<^verbatim>\<open>BlockingIOError\<close>: \<^verbatim>\<open>main\<close> returns 0), and gives \<^verbatim>\<open>lock_fd\<close>, which is
  \<^verbatim>\<open>None\<close> after any other exception.
\<close>

definition acquire_lock :: "env \<Rightarrow> world \<Rightarrow> bool \<times> nat option \<times> world" where
  "acquire_lock env w =
     (case os_open env of
        None \<Rightarrow> (False, None, w)
      | Some fd \<Rightarrow>
          (let w' = w\<lparr>files := (case files w LOCK_FILE of
                                   None \<Rightarrow> (files w)(LOCK_FILE \<mapsto> [])
                                 | Some t \<Rightarrow> files w)\<rparr>
           in case flock env of
                Granted \<Rightarrow> (False, Some fd, w')
              | WouldBlock \<Rightarrow> (True, Some fd, w')
              | FlockRaises \<Rightarrow> (False, None, w')))"

text \<open>
  \<^verbatim>\<open>main\<close>. Its result is the value it returns (which \<^verbatim>\<open>SystemExit\<close> turns into the
  exit status), or the exception that leaves it: \<^verbatim>\<open>main\<close> has no handler around
  \<^verbatim>\<open>should_throttle\<close>, \<^verbatim>\<open>write_status\<close> and \<^verbatim>\<open>update_throttle_state\<close>. The closing
  of the lock descriptor at the end changes nothing of the state modelled, and an
  exception of \<^verbatim>\<open>os.close\<close> is caught there.
\<close>

definition main :: "env \<Rightarrow> world \<Rightarrow> (exn + int) \<times> world" where
  "main env w =
     (let (contended, lock_fd, w0) = acquire_lock env w
      in if contended then (Inr 0, w0)
         else
           (case should_throttle env w0 of
              Inl e \<Rightarrow> (Inl e, w0)
            | Inr (skip, throttle_state) \<Rightarrow>
                if skip
                then
                  (case update_throttle_state env throttle_state True w0 of
                     (Inl e, w1) \<Rightarrow> (Inl e, w1)
                   | (Inr u, w1) \<Rightarrow>
                       (case write_status env False
                               [(''skipped_due_to_throttle'', JBool True),
                                (''note'', JStr ''Previous run failed; running only 1 in 10 invocations.'')]
                               w1 of
                          (Inl e, w2) \<Rightarrow> (Inl e, w2)
                        | (Inr u', w2) \<Rightarrow> (Inr 0, w2)))
                else
                  (let (s, w1) = main_loop env w0
                   in case write_status env (succeeded s)
                             [(''url'', JStr URL),
                              (''service'', JStr SERVICE_NAME),
                              (''max_retries'', JInt (int MAX_RETRIES)),
                              (''base_wait_seconds'', JInt BASE_WAIT_SECONDS),
                              (''wait_increment_seconds'', JInt WAIT_INCREMENT_SECONDS),
                              (''attempts'', JArray (map JObject (attempts s))),
                              (''restart_errors'', JArray (map JStr (restart_errors s))),
                              (''skipped_due_to_throttle'', JBool False)]
                             w1 of
                        (Inl e, w2) \<Rightarrow> (Inl e, w2)
                      | (Inr u, w2) \<Rightarrow>
                          (case update_throttle_state env throttle_state (\<not> succeeded s) w2 of
                             (Inl e, w3) \<Rightarrow> (Inl e, w3)
                           | (Inr u', w3) \<Rightarrow> (Inr (if succeeded s then 0 else 1), w3)))))"

text \<open>
  The last line of the program, \<^verbatim>\<open>raise SystemExit(main())\<close>: the value \<^verbatim>\<open>main\<close>
  returns becomes the exit status of the process; an exception that leaves \<^verbatim>\<open>main\<close>
  is caught by nothing, and the interpreter ends with status 1.
\<close>

definition exit_status :: "exn + int \<Rightarrow> int" where
  "exit_status r = (case r of Inl e \<Rightarrow> 1 | Inr c \<Rightarrow> c)"

section \<open>Notions used to state the properties\<close>

text \<open>The paths a file operation creates, writes or removes.\<close>

fun op_target :: "fs_op \<Rightarrow> string set" where
  "op_target (Open_w p) = {p}"
| "op_target (Write_chunk p s) = {p}"
| "op_target (Flush p) = {}"
| "op_target (Fsync p) = {}"
| "op_target (Close p) = {}"
| "op_target (Replace a b) = {a, b}"

text \<open>The status code the probe of attempt i returns.\<close>

definition probe_status :: "env \<Rightarrow> nat \<Rightarrow> int option" where
  "probe_status env i = fst (http_get_status (urlopen env i))"

text \<open>The calls to the outside made by the retry loop started in the world w, in order.\<close>

definition loop_events :: "env \<Rightarrow> world \<Rightarrow> event list" where
  "loop_events env w = drop (length (trace w)) (trace (snd (main_loop env w)))"

fun is_probe :: "event \<Rightarrow> bool" where
  "is_probe (Probe i c) = True"
| "is_probe (Restart i) = False"
| "is_probe (Sleep d) = False"

text \<open>The durations of the waits among a list of events, in order.\<close>

fun sleeps :: "event list \<Rightarrow> int list" where
  "sleeps [] = []"
| "sleeps (Sleep d # es) = d # sleeps es"
| "sleeps (Probe i c # es) = sleeps es"
| "sleeps (Restart i # es) = sleeps es"

text \<open>
  A list of events keeps the restart discipline when a probe that returned 200 is its
  last event, every other probe is followed at once by the restart of the same attempt,
  and no restart stands anywhere else.
\<close>

fun restart_discipline :: "event list \<Rightarrow> bool" where
  "restart_discipline [] = True"
| "restart_discipline (Probe i c # es) =
     (if c = Some 200 then es = []
      else (case es of Restart j # es' \<Rightarrow> j = i \<and> restart_discipline es' | _ \<Rightarrow> False))"
| "restart_discipline (Sleep d # es) = restart_discipline es"
| "restart_discipline (Restart i # es) = False"

text \<open>The events of an attempt j that fails and is not the last: probe, restart, wait.\<close>

definition failed_cycle :: "env \<Rightarrow> nat \<Rightarrow> event list" where
  "failed_cycle env j =
     [Probe j (probe_status env j), Restart j,
      Sleep (BASE_WAIT_SECONDS + (int j - 1) * WAIT_INCREMENT_SECONDS)]"

text \<open>
  The dict \<^verbatim>\<open>update_throttle_state\<close> hands to \<^verbatim>\<open>write_json_atomic\<close>, for the state
  it is given, the flag and the reading of the clock.
\<close>

definition persisted_state :: "dict \<Rightarrow> bool \<Rightarrow> string \<Rightarrow> dict" where
  "persisted_state state last_failed ts =
     AList.update ''updated_at'' (JStr ts)
       (if \<not> last_failed
        then AList.update ''counter'' (JInt 0)
               (AList.update ''last_failed'' (JBool last_failed) state)
        else AList.update ''last_failed'' (JBool last_failed) state)"


text \<open>
  A failure streak: consecutive invocations, each reading the dict the one before it
  persisted, none of them ending in success. Such an invocation, skipped or not, ends
  with \<^verbatim>\<open>update_throttle_state(throttle_state, True)\<close>. The list holds the reading of the
  clock of each invocation; the result is the list of their skip flags.
\<close>

fun failure_streak :: "(string \<Rightarrow> int option) \<Rightarrow> dict \<Rightarrow> string list \<Rightarrow> exn + bool list" where
  "failure_streak ios st [] = Inr []"
| "failure_streak ios st (ts # tss) =
     (case throttle_decision ios (JObject st) of
        Inl e \<Rightarrow> Inl e
      | Inr (skip, st') \<Rightarrow>
          (case failure_streak ios (persisted_state st' True ts) tss of
             Inl e \<Rightarrow> Inl e
           | Inr skips \<Rightarrow> Inr (skip # skips)))"

text \<open>Whether the lock block finds the lock held by another instance.\<close>

definition contended :: "env \<Rightarrow> bool" where
  "contended env = (os_open env \<noteq> None \<and> flock env = WouldBlock)"

subsection \<open>Example runs\<close>

text \<open>
  An outside where the lock is granted, every restart succeeds, no write fails and no
  file text parses; the probes are given.
\<close>

definition example_env :: "(nat \<Rightarrow> urlopen_outcome) \<Rightarrow> env" where
  "example_env probes =
     \<lparr>dumps = (\<lambda>v. [''{'', ''}'']), loads = (\<lambda>t. None), int_of_str = (\<lambda>s. None),
      clock = (\<lambda>k. ''2026-01-01T00:00:00+00:00''), os_open = Some 3, flock = Granted,
      urlopen = probes, restart_result = (\<lambda>i. (True, ''ok'')),
      write_fault = (\<lambda>p. None)\<rparr>"

definition empty_world :: world where
  "empty_world = \<lparr>files = Map.empty, ticks = 0, trace = []\<rparr>"

definition second_succeeds :: "nat \<Rightarrow> urlopen_outcome" where
  "second_succeeds i = (if i = 2 then Response (Some 200) else RaisesOther ''refused'')"

definition always_500 :: "nat \<Rightarrow> urlopen_outcome" where
  "always_500 i = RaisesHTTPError 500 ''HTTP Error 500: Internal Server Error''"

text \<open>
  An outside where \<^verbatim>\<open>json.load\<close> yields the value v on every text, a world whose
  throttle file exists, and two throttle states: one in a failure streak, one healthy.
\<close>

definition reading :: "json \<Rightarrow> env \<Rightarrow> env" where
  "reading v env = env\<lparr>loads := (\<lambda>t. Some v)\<rparr>"

definition throttle_file_world :: world where
  "throttle_file_world = \<lparr>files = [THROTTLE_FILE \<mapsto> ''...''], ticks = 0, trace = []\<rparr>"

definition streak_state :: dict where
  "streak_state = [(''last_failed'', JBool True), (''counter'', JInt 3)]"

definition healthy_state :: dict where
  "healthy_state = [(''last_failed'', JBool False), (''counter'', JInt 7)]"

text \<open>
  An outside where another instance holds the lock; one where the second probe returns
  200 and opening the temporary status file raises; and one in a failure streak where the
  replace of the throttle file raises.
\<close>

definition locked_out_env :: env where
  "locked_out_env = (example_env always_500)\<lparr>flock := WouldBlock\<rparr>"

definition status_write_fails :: env where
  "status_write_fails =
     (example_env second_succeeds)\<lparr>write_fault := (\<lambda>p. if p = STATUS_FILE then Some At_open else None)\<rparr>"

definition throttle_write_fails :: env where
  "throttle_write_fails =
     (reading (JObject streak_state) (example_env always_500))
       \<lparr>write_fault := (\<lambda>p. if p = THROTTLE_FILE then Some At_replace else None)\<rparr>"

section \<open>Properties of the health prober\<close>

text \<open>
  Claim C7 says that a completed exchange gives the status code and no error detail, also
  for a 4xx or 5xx response. The code does otherwise for the responses \<^verbatim>\<open>urlopen\<close>
  reports by raising \<^verbatim>\<open>HTTPError\<close>: a 404 comes back with its code and with an error
  description.
\<close>

theorem http_get_status_404_has_error_detail:
  "http_get_status (RaisesHTTPError 404 ''HTTP Error 404: Not Found'')
     = (Some 404, Some ''HTTPError: HTTP Error 404: Not Found'')
   \<and> snd (http_get_status (RaisesHTTPError 404 ''HTTP Error 404: Not Found'')) \<noteq> None"
  by simp

text \<open>
  Claim C7, amended: the error detail is absent exactly when \<^verbatim>\<open>urlopen\<close> returned a
  response object; the status code is absent exactly when \<^verbatim>\<open>urlopen\<close> raised an
  exception other than \<^verbatim>\<open>HTTPError\<close>; an \<^verbatim>\<open>HTTPError\<close> gives its status code together
  with a description that starts with \<^verbatim>\<open>HTTPError: \<close>, any other exception no code and a
  description that starts with \<^verbatim>\<open>RequestError: \<close>.
\<close>

theorem http_get_status_outcomes:
  "(snd (http_get_status u) = None \<longleftrightarrow> (\<exists>st. u = Response st))
   \<and> (fst (http_get_status u) = None \<longleftrightarrow> (\<exists>s. u = RaisesOther s))
   \<and> http_get_status (RaisesHTTPError c s) = (Some c, Some (''HTTPError: '' @ s))
   \<and> http_get_status (RaisesOther s) = (None, Some (''RequestError: '' @ s))
   \<and> http_get_status (Response (Some c)) = (Some c, None)"
  by (cases u) auto

section \<open>Properties of the state store\<close>

lemma run_ops_append: "run_ops (xs @ ys) fs = run_ops ys (run_ops xs fs)"
  by (induction xs arbitrary: fs) simp_all

lemma run_ops_write_chunks:
  "run_ops (map (Write_chunk p) cs) fs =
     (case fs p of None \<Rightarrow> fs | Some t \<Rightarrow> fs(p \<mapsto> t @ concat cs))"
  by (induction cs arbitrary: fs) (auto split: option.splits)

lemma exec_op_other: "p \<notin> op_target op \<Longrightarrow> exec_op op fs p = fs p"
  by (cases op) (auto split: option.splits)

lemma run_ops_other: "\<forall>op \<in> set ops. p \<notin> op_target op \<Longrightarrow> run_ops ops fs p = fs p"
  by (induction ops arbitrary: fs) (simp_all add: exec_op_other)

lemma take_prefix_only: "k \<le> length xs \<Longrightarrow> take k (xs @ ys) = take k xs"
  by simp

lemma run_tmp_part:
  "run_ops ([Open_w q] @ map (Write_chunk q) cs @ [Flush q, Fsync q, Close q]) fs
     = fs(q \<mapsto> concat cs)"
  by (simp add: run_ops_append run_ops_write_chunks)

lemma write_ops_split:
  "write_json_atomic_ops path chunks =
     ([Open_w (path @ ''.tmp'')] @ map (Write_chunk (path @ ''.tmp'')) chunks
        @ [Flush (path @ ''.tmp''), Fsync (path @ ''.tmp''), Close (path @ ''.tmp'')])
     @ [Replace (path @ ''.tmp'') path]"
  by (simp add: write_json_atomic_ops_def Let_def)

lemma crash_point:
  "run_ops (take k (write_json_atomic_ops path chunks)) fs path =
     (if k < length (write_json_atomic_ops path chunks) then fs path else Some (concat chunks))"
proof -
  let ?q = "path @ ''.tmp''"
  let ?pre = "[Open_w ?q] @ map (Write_chunk ?q) chunks @ [Flush ?q, Fsync ?q, Close ?q]"
  note ops = write_ops_split [of path chunks]
  show ?thesis
  proof (cases "k < length (write_json_atomic_ops path chunks)")
    case True
    then have "k \<le> length ?pre" by (simp add: ops)
    then have tk: "take k (write_json_atomic_ops path chunks) = take k ?pre"
      unfolding ops by (rule take_prefix_only)
    have "\<forall>op \<in> set ?pre. path \<notin> op_target op" by auto
    then have "\<forall>op \<in> set (take k ?pre). path \<notin> op_target op"
      by (meson in_set_takeD)
    then have "run_ops (take k ?pre) fs path = fs path" by (rule run_ops_other)
    with True tk show ?thesis by simp
  next
    case False
    then have "length (?pre @ [Replace ?q path]) \<le> k"
      by (simp add: ops)
    then have "take k (write_json_atomic_ops path chunks) = ?pre @ [Replace ?q path]"
      unfolding ops by (rule take_all)
    then have "run_ops (take k (write_json_atomic_ops path chunks)) fs
                 = run_ops [Replace ?q path] (run_ops ?pre fs)"
      by (simp only: run_ops_append)
    also have "\<dots> = exec_op (Replace ?q path) (fs(?q \<mapsto> concat chunks))"
      by (simp only: run_tmp_part run_ops.simps)
    finally show ?thesis using False by simp
  qed
qed

lemma write_ops_run:
  "run_ops (write_json_atomic_ops p cs) fs = (fs(p @ ''.tmp'' := None))(p \<mapsto> concat cs)"
proof -
  have "run_ops (write_json_atomic_ops p cs) fs
          = run_ops [Replace (p @ ''.tmp'') p] (fs(p @ ''.tmp'' \<mapsto> concat cs))"
    unfolding write_ops_split
    by (subst run_ops_append) (simp only: run_tmp_part)
  then show ?thesis by simp
qed

lemma write_ops_length: "length (write_json_atomic_ops p cs) = length cs + 5"
  by (simp add: write_json_atomic_ops_def Let_def)

lemma completed_ops_less: "completed_ops f n < n + 5"
  by (cases f) simp_all

lemma write_ops_targets:
  "op \<in> set (write_json_atomic_ops p cs) \<Longrightarrow> op_target op \<subseteq> {p, p @ ''.tmp''}"
  by (auto simp: write_json_atomic_ops_def Let_def)

lemma write_prefix_other:
  assumes "q \<noteq> p" "q \<noteq> p @ ''.tmp''"
  shows "run_ops (take k (write_json_atomic_ops p cs)) fs q = fs q"
proof (rule run_ops_other, rule ballI)
  fix op
  assume "op \<in> set (take k (write_json_atomic_ops p cs))"
  then have "op \<in> set (write_json_atomic_ops p cs)" by (rule in_set_takeD)
  then have "op_target op \<subseteq> {p, p @ ''.tmp''}" by (rule write_ops_targets)
  with assms show "q \<notin> op_target op" by auto
qed

lemma replace_is_last:
  assumes "Replace (p @ ''.tmp'') p \<in> set (take k (write_json_atomic_ops p cs))"
  shows "take k (write_json_atomic_ops p cs) = write_json_atomic_ops p cs"
proof (rule ccontr)
  let ?q = "p @ ''.tmp''"
  let ?pre = "[Open_w ?q] @ map (Write_chunk ?q) cs @ [Flush ?q, Fsync ?q, Close ?q]"
  assume "take k (write_json_atomic_ops p cs) \<noteq> write_json_atomic_ops p cs"
  then have "k < length (write_json_atomic_ops p cs)"
    by (metis not_le take_all)
  then have "k \<le> length ?pre" by (simp add: write_ops_length)
  then have "take k (?pre @ [Replace ?q p]) = take k ?pre"
    by (rule take_prefix_only)
  with assms have "Replace ?q p \<in> set (take k ?pre)"
    by (simp only: write_ops_split)
  then have "Replace ?q p \<in> set ?pre" by (rule in_set_takeD)
  then show False by auto
qed

lemma before_replace:
  "run_ops (butlast (write_json_atomic_ops p cs)) fs (p @ ''.tmp'') = Some (concat cs)"
proof -
  have "butlast (write_json_atomic_ops p cs) =
      [Open_w (p @ ''.tmp'')] @ map (Write_chunk (p @ ''.tmp'')) cs
        @ [Flush (p @ ''.tmp''), Fsync (p @ ''.tmp''), Close (p @ ''.tmp'')]"
    unfolding write_ops_split by (rule butlast_snoc)
  then show ?thesis by (simp only: run_tmp_part) simp
qed

lemma write_nofault:
  "write_fault env p = None \<Longrightarrow>
     write_json_atomic env p d w =
       (Inr (), w\<lparr>files := (files w)(p @ ''.tmp'' := None, p \<mapsto> concat (dumps env d))\<rparr>)"
  by (simp add: write_json_atomic_def Let_def write_ops_run)

lemma write_fst:
  "fst (write_json_atomic env p d w) =
     (case write_fault env p of None \<Rightarrow> Inr () | Some f \<Rightarrow> Inl OSError)"
  by (simp add: write_json_atomic_def Let_def split: option.splits)

lemma write_faulted_target:
  "write_fault env p = Some f \<Longrightarrow> files (snd (write_json_atomic env p d w)) p = files w p"
  using completed_ops_less [of f "length (dumps env d)"]
  by (simp add: write_json_atomic_def Let_def crash_point write_ops_length)

lemma write_other:
  "q \<noteq> p \<Longrightarrow> q \<noteq> p @ ''.tmp'' \<Longrightarrow> files (snd (write_json_atomic env p d w)) q = files w q"
  by (simp add: write_json_atomic_def Let_def write_prefix_other write_ops_run
        split: option.splits)


text \<open>
  Claim C9. The operations of \<^verbatim>\<open>write_json_atomic\<close> are: open the sibling temporary
  path, write the chunks of the serialised data to it, flush, fsync, close, and last of all
  one replace of the target by the temporary file. Stopped after any number k of these
  operations (a crash, or an exception), the target holds what it held before as long as
  the replace has not run, and the whole new text once it has: it never holds a part of
  the new text, whatever a reader looks at in between. When the replace runs, every other
  operation has run before it and the temporary file holds the whole new text. A call
  in which no step raises returns normally, leaves the whole new text in the target and
  no temporary file; a call in which a step raises ends with OSError and leaves the target
  as it was.
\<close>

theorem write_json_atomic_old_or_new:
  "write_json_atomic_ops path chunks =
     [Open_w (path @ ''.tmp'')] @ map (Write_chunk (path @ ''.tmp'')) chunks
       @ [Flush (path @ ''.tmp''), Fsync (path @ ''.tmp''), Close (path @ ''.tmp''),
          Replace (path @ ''.tmp'') path]
   \<and> run_ops (take k (write_json_atomic_ops path chunks)) fs path =
       (if k < length (write_json_atomic_ops path chunks) then fs path
        else Some (concat chunks))
   \<and> (Replace (path @ ''.tmp'') path \<in> set (take k (write_json_atomic_ops path chunks)) \<longrightarrow>
        take k (write_json_atomic_ops path chunks) = write_json_atomic_ops path chunks)
   \<and> run_ops (butlast (write_json_atomic_ops path chunks)) fs (path @ ''.tmp'')
        = Some (concat chunks)
   \<and> files (snd (write_json_atomic env path data w)) path =
       (if fst (write_json_atomic env path data w) = Inr ()
        then Some (concat (dumps env data)) else files w path)
   \<and> (write_fault env path = None \<longrightarrow>
        write_json_atomic env path data w =
          (Inr (), w\<lparr>files := (files w)(path @ ''.tmp'' := None,
                                       path \<mapsto> concat (dumps env data))\<rparr>))
   \<and> (\<forall>f. write_fault env path = Some f \<longrightarrow>
        fst (write_json_atomic env path data w) = Inl OSError
        \<and> files (snd (write_json_atomic env path data w)) path = files w path)"
proof -
  have a: "write_json_atomic_ops path chunks =
     [Open_w (path @ ''.tmp'')] @ map (Write_chunk (path @ ''.tmp'')) chunks
       @ [Flush (path @ ''.tmp''), Fsync (path @ ''.tmp''), Close (path @ ''.tmp''),
          Replace (path @ ''.tmp'') path]"
    by (simp add: write_json_atomic_ops_def Let_def)
  have c: "files (snd (write_json_atomic env path data w)) path =
       (if fst (write_json_atomic env path data w) = Inr ()
        then Some (concat (dumps env data)) else files w path)"
    by (cases "write_fault env path")
       (simp_all add: write_nofault write_fst write_faulted_target)
  have e: "\<forall>f. write_fault env path = Some f \<longrightarrow>
        fst (write_json_atomic env path data w) = Inl OSError
        \<and> files (snd (write_json_atomic env path data w)) path = files w path"
    by (simp add: write_fst write_faulted_target)
  from a crash_point [of k path chunks fs] replace_is_last [of path k chunks]
    before_replace [of path chunks fs] c write_nofault [of env path data w] e
  show ?thesis by blast
qed

theorem write_json_atomic_old_or_new_witness:
  "fst (write_json_atomic (example_env always_500) STATUS_FILE (JObject []) empty_world) = Inr ()
   \<and> files (snd (write_json_atomic (example_env always_500) STATUS_FILE (JObject []) empty_world))
        STATUS_FILE = Some ''{}''
   \<and> files (snd (write_json_atomic (example_env always_500) STATUS_FILE (JObject []) empty_world))
        (STATUS_FILE @ ''.tmp'') = None
   \<and> fst (write_json_atomic status_write_fails STATUS_FILE (JObject []) throttle_file_world)
        = Inl OSError
   \<and> files (snd (write_json_atomic status_write_fails STATUS_FILE (JObject []) throttle_file_world))
        STATUS_FILE = files throttle_file_world STATUS_FILE"
proof -
  note ok = write_json_atomic_old_or_new
      [of STATUS_FILE "[]" 0 Map.empty "example_env always_500" "JObject []" empty_world]
  note bad = write_json_atomic_old_or_new
      [of STATUS_FILE "[]" 0 Map.empty status_write_fails "JObject []" throttle_file_world]
  have n: "write_fault (example_env always_500) STATUS_FILE = None"
    by (simp add: example_env_def)
  have f: "write_fault status_write_fails STATUS_FILE = Some At_open"
    by (simp add: status_write_fails_def)
  from ok n have r: "write_json_atomic (example_env always_500) STATUS_FILE (JObject []) empty_world =
          (Inr (), empty_world\<lparr>files := (files empty_world)(STATUS_FILE @ ''.tmp'' := None,
                STATUS_FILE \<mapsto> concat (dumps (example_env always_500) (JObject [])))\<rparr>)"
    by blast
  from bad f have b: "fst (write_json_atomic status_write_fails STATUS_FILE (JObject []) throttle_file_world)
        = Inl OSError
        \<and> files (snd (write_json_atomic status_write_fails STATUS_FILE (JObject []) throttle_file_world))
            STATUS_FILE = files throttle_file_world STATUS_FILE"
    by blast
  have d: "concat (dumps (example_env always_500) (JObject [])) = ''{}''"
    by (simp add: example_env_def)
  from b show ?thesis
    unfolding r by (simp add: d)
qed

section \<open>Properties of the retry loop\<close>

lemma retry_loop_Cons:
  "retry_loop env (i # is) sw =
     (if fst (attempt env i sw) then snd (attempt env i sw)
      else retry_loop env is (snd (attempt env i sw)))"
  by (cases "attempt env i sw") auto

lemma attempt_break: "fst (attempt env i sw) = (probe_status env i = Some 200)"
  by (cases sw; cases "http_get_status (urlopen env i)"; cases "restart_result env i")
     (simp add: attempt_def probe_status_def utc_now_iso_def Let_def)

lemma attempt_trace:
  "trace (snd (snd (attempt env i sw))) =
     trace (snd sw) @
       (if probe_status env i = Some 200 then [Probe i (Some 200)]
        else [Probe i (probe_status env i), Restart i]
             @ (if i < MAX_RETRIES then [Sleep (wait (fst sw))] else []))"
  by (cases sw; cases "http_get_status (urlopen env i)"; cases "restart_result env i")
     (simp add: attempt_def probe_status_def utc_now_iso_def Let_def)

lemma attempt_wait:
  "wait (fst (snd (attempt env i sw))) =
     (if probe_status env i \<noteq> Some 200 \<and> i < MAX_RETRIES
      then wait (fst sw) + WAIT_INCREMENT_SECONDS else wait (fst sw))"
  by (cases sw; cases "http_get_status (urlopen env i)"; cases "restart_result env i")
     (simp add: attempt_def probe_status_def utc_now_iso_def Let_def)

lemma attempt_succeeded:
  "succeeded (fst (snd (attempt env i sw))) =
     (succeeded (fst sw) \<or> probe_status env i = Some 200)"
  by (cases sw; cases "http_get_status (urlopen env i)"; cases "restart_result env i")
     (simp add: attempt_def probe_status_def utc_now_iso_def Let_def)

lemma attempt_length:
  "length (attempts (fst (snd (attempt env i sw)))) = Suc (length (attempts (fst sw)))"
  by (cases sw; cases "http_get_status (urlopen env i)"; cases "restart_result env i")
     (simp add: attempt_def probe_status_def utc_now_iso_def Let_def)

lemma attempt_files: "files (snd (snd (attempt env i sw))) = files (snd sw)"
  by (cases sw; cases "http_get_status (urlopen env i)"; cases "restart_result env i")
     (simp add: attempt_def probe_status_def utc_now_iso_def Let_def)


lemma range_retries: "[1 ..< MAX_RETRIES + 1] = [1, 2, 3, 4, 5]"
  by (simp add: MAX_RETRIES_def upt_rec)

lemma main_loop_trace:
  "trace (snd (main_loop env w)) = trace w @
    (if probe_status env 1 = Some 200 then [Probe 1 (Some 200)] else
       [Probe 1 (probe_status env 1), Restart 1, Sleep 30] @
    (if probe_status env 2 = Some 200 then [Probe 2 (Some 200)] else
       [Probe 2 (probe_status env 2), Restart 2, Sleep 60] @
    (if probe_status env 3 = Some 200 then [Probe 3 (Some 200)] else
       [Probe 3 (probe_status env 3), Restart 3, Sleep 90] @
    (if probe_status env 4 = Some 200 then [Probe 4 (Some 200)] else
       [Probe 4 (probe_status env 4), Restart 4, Sleep 120] @
    (if probe_status env 5 = Some 200 then [Probe 5 (Some 200)] else
       [Probe 5 (probe_status env 5), Restart 5])))))"
  unfolding main_loop_def range_retries
  by (simp add: retry_loop_Cons attempt_break attempt_trace attempt_wait
        MAX_RETRIES_def BASE_WAIT_SECONDS_def WAIT_INCREMENT_SECONDS_def
        del: retry_loop.simps(2))

lemma main_loop_succeeded:
  "succeeded (fst (main_loop env w)) =
     (\<exists>k \<in> {1 .. MAX_RETRIES}. probe_status env k = Some 200)"
proof -
  have set: "{1 .. MAX_RETRIES} = {1, 2, 3, 4, 5}"
    by (auto simp: MAX_RETRIES_def)
  show ?thesis
    unfolding main_loop_def range_retries set
    by (simp add: retry_loop_Cons attempt_break attempt_succeeded
          del: retry_loop.simps(2))
qed



lemma loop_events_eq:
  "loop_events env w =
    (if probe_status env 1 = Some 200 then [Probe 1 (Some 200)] else
       [Probe 1 (probe_status env 1), Restart 1, Sleep 30] @
    (if probe_status env 2 = Some 200 then [Probe 2 (Some 200)] else
       [Probe 2 (probe_status env 2), Restart 2, Sleep 60] @
    (if probe_status env 3 = Some 200 then [Probe 3 (Some 200)] else
       [Probe 3 (probe_status env 3), Restart 3, Sleep 90] @
    (if probe_status env 4 = Some 200 then [Probe 4 (Some 200)] else
       [Probe 4 (probe_status env 4), Restart 4, Sleep 120] @
    (if probe_status env 5 = Some 200 then [Probe 5 (Some 200)] else
       [Probe 5 (probe_status env 5), Restart 5])))))"
  unfolding loop_events_def main_loop_trace by simp

lemma main_loop_attempts:
  "length (attempts (fst (main_loop env w))) =
    (if probe_status env 1 = Some 200 then 1 else
     if probe_status env 2 = Some 200 then 2 else
     if probe_status env 3 = Some 200 then 3 else
     if probe_status env 4 = Some 200 then 4 else 5)"
  unfolding main_loop_def range_retries
  by (simp add: retry_loop_Cons attempt_break attempt_length del: retry_loop.simps(2))

lemma upto_k: "[Suc 0 ..< 2] = [1]" "[Suc 0 ..< 3] = [1, 2]"
  "[Suc 0 ..< 4] = [1, 2, 3]" "[Suc 0 ..< 5] = [1, 2, 3, 4]"
  by (simp_all add: upt_rec)

text \<open>
  Claim C1. The retry loop makes at most \<open>MAX_RETRIES\<close> probes. When attempt k is the first
  whose probe returns 200, the loop sets the success flag, holds exactly k attempt records,
  and its events are the probe, restart and wait of each attempt before k followed by the
  probe of attempt k and nothing more: no restart, no wait, no later attempt.
\<close>

theorem retry_loop_stops_at_first_success:
  "length (filter is_probe (loop_events env w)) \<le> MAX_RETRIES
   \<and> (\<forall>k. 1 \<le> k \<and> k \<le> MAX_RETRIES \<and> probe_status env k = Some 200
          \<and> (\<forall>j. 1 \<le> j \<and> j < k \<longrightarrow> probe_status env j \<noteq> Some 200)
        \<longrightarrow> succeeded (fst (main_loop env w))
          \<and> length (attempts (fst (main_loop env w))) = k
          \<and> loop_events env w = concat (map (failed_cycle env) [1 ..< k]) @ [Probe k (Some 200)])"
proof (intro conjI allI impI)
  show "length (filter is_probe (loop_events env w)) \<le> MAX_RETRIES"
    by (simp add: loop_events_eq MAX_RETRIES_def)
next
  fix k
  assume a: "1 \<le> k \<and> k \<le> MAX_RETRIES \<and> probe_status env k = Some 200
          \<and> (\<forall>j. 1 \<le> j \<and> j < k \<longrightarrow> probe_status env j \<noteq> Some 200)"
  then show "succeeded (fst (main_loop env w))"
    by (auto simp: main_loop_succeeded)
  from a have "k = 1 \<or> k = 2 \<or> k = 3 \<or> k = 4 \<or> k = 5"
    by (auto simp: MAX_RETRIES_def)
  moreover from a have f: "\<And>j. 1 \<le> j \<Longrightarrow> j < k \<Longrightarrow> probe_status env j \<noteq> Some 200"
    by blast
  moreover from a have s: "probe_status env k = Some 200" by blast
  ultimately show "length (attempts (fst (main_loop env w))) = k"
    by (elim disjE) (simp_all add: main_loop_attempts)
  from \<open>k = 1 \<or> k = 2 \<or> k = 3 \<or> k = 4 \<or> k = 5\<close> f s
  show "loop_events env w = concat (map (failed_cycle env) [1 ..< k]) @ [Probe k (Some 200)]"
    by (elim disjE)
       (simp_all add: loop_events_eq upto_k failed_cycle_def
          BASE_WAIT_SECONDS_def WAIT_INCREMENT_SECONDS_def)
qed

text \<open>
  Claim C2. When no probe returns 200, the loop makes \<open>MAX_RETRIES\<close> attempts and one wait
  fewer: the waits last 30, 60, 90 and 120 seconds, that is base plus (k - 1) increments
  after attempt k, and the last events are the probe and the restart of the final
  attempt, with no wait after them.
\<close>

theorem all_probes_fail_waits:
  assumes "\<forall>k. 1 \<le> k \<and> k \<le> MAX_RETRIES \<longrightarrow> probe_status env k \<noteq> Some 200"
  shows "length (attempts (fst (main_loop env w))) = MAX_RETRIES
   \<and> sleeps (loop_events env w) = [30, 60, 90, 120]
   \<and> sleeps (loop_events env w) =
       map (\<lambda>k. BASE_WAIT_SECONDS + (int k - 1) * WAIT_INCREMENT_SECONDS) [1 ..< MAX_RETRIES]
   \<and> length (sleeps (loop_events env w)) = length (attempts (fst (main_loop env w))) - 1
   \<and> loop_events env w =
       concat (map (failed_cycle env) [1 ..< MAX_RETRIES])
         @ [Probe MAX_RETRIES (probe_status env MAX_RETRIES), Restart MAX_RETRIES]"
proof -
  from assms have f: "probe_status env 1 \<noteq> Some 200" "probe_status env 2 \<noteq> Some 200"
    "probe_status env 3 \<noteq> Some 200" "probe_status env 4 \<noteq> Some 200"
    "probe_status env 5 \<noteq> Some 200"
    by (simp_all add: MAX_RETRIES_def)
  have ev: "loop_events env w =
     [Probe 1 (probe_status env 1), Restart 1, Sleep 30,
      Probe 2 (probe_status env 2), Restart 2, Sleep 60,
      Probe 3 (probe_status env 3), Restart 3, Sleep 90,
      Probe 4 (probe_status env 4), Restart 4, Sleep 120,
      Probe 5 (probe_status env 5), Restart 5]"
    using f by (simp add: loop_events_eq)
  have n: "length (attempts (fst (main_loop env w))) = 5"
    using f by (simp add: main_loop_attempts)
  show ?thesis
    unfolding ev n
    by (simp add: MAX_RETRIES_def upto_k failed_cycle_def
          BASE_WAIT_SECONDS_def WAIT_INCREMENT_SECONDS_def)
qed

text \<open>
  Claim C3. In the events of the loop a probe that returned 200 is the last event and every
  other probe, also one without a status code, is followed at once by a restart; a
  restart of attempt k occurs exactly when the probe of attempt k was made and did not
  return 200.
\<close>

theorem restart_after_every_failed_probe:
  "restart_discipline (loop_events env w)
   \<and> (\<forall>k. Restart k \<in> set (loop_events env w) \<longleftrightarrow>
          (Probe k (probe_status env k) \<in> set (loop_events env w)
           \<and> probe_status env k \<noteq> Some 200))
   \<and> (\<forall>k c. Probe k c \<in> set (loop_events env w) \<longrightarrow> c = probe_status env k)"
proof (intro conjI allI impI)
  show "restart_discipline (loop_events env w)"
    by (simp add: loop_events_eq)
next
  fix k
  show "Restart k \<in> set (loop_events env w) \<longleftrightarrow>
          (Probe k (probe_status env k) \<in> set (loop_events env w)
           \<and> probe_status env k \<noteq> Some 200)"
    by (auto simp: loop_events_eq split: if_splits)
next
  fix k c
  assume "Probe k c \<in> set (loop_events env w)"
  then show "c = probe_status env k"
    by (auto simp: loop_events_eq split: if_splits)
qed


lemma status_second_succeeds:
  "probe_status (example_env second_succeeds) i = (if i = 2 then Some 200 else None)"
  by (simp add: probe_status_def example_env_def second_succeeds_def)

lemma status_always_500: "probe_status (example_env always_500) i = Some 500"
  by (simp add: probe_status_def example_env_def always_500_def)

theorem retry_loop_stops_at_first_success_witness:
  "probe_status (example_env second_succeeds) 2 = Some 200
   \<and> probe_status (example_env second_succeeds) 1 \<noteq> Some 200
   \<and> succeeded (fst (main_loop (example_env second_succeeds) empty_world))
   \<and> length (attempts (fst (main_loop (example_env second_succeeds) empty_world))) = 2
   \<and> loop_events (example_env second_succeeds) empty_world
        = [Probe 1 None, Restart 1, Sleep 30, Probe 2 (Some 200)]"
proof -
  have h: "1 \<le> (2::nat) \<and> 2 \<le> MAX_RETRIES
          \<and> probe_status (example_env second_succeeds) 2 = Some 200
          \<and> (\<forall>j. 1 \<le> j \<and> j < 2 \<longrightarrow> probe_status (example_env second_succeeds) j \<noteq> Some 200)"
    by (simp add: MAX_RETRIES_def status_second_succeeds)
  from retry_loop_stops_at_first_success [of "example_env second_succeeds" empty_world] h
  have "succeeded (fst (main_loop (example_env second_succeeds) empty_world))
          \<and> length (attempts (fst (main_loop (example_env second_succeeds) empty_world))) = 2
          \<and> loop_events (example_env second_succeeds) empty_world
             = concat (map (failed_cycle (example_env second_succeeds)) [1 ..< 2]) @ [Probe 2 (Some 200)]"
    by blast
  then show ?thesis
    by (simp add: status_second_succeeds failed_cycle_def upto_k
          BASE_WAIT_SECONDS_def WAIT_INCREMENT_SECONDS_def)
qed

theorem all_probes_fail_waits_witness:
  "probe_status (example_env always_500) 1 = Some 500
   \<and> probe_status (example_env always_500) 5 = Some 500
   \<and> sleeps (loop_events (example_env always_500) empty_world) = [30, 60, 90, 120]
   \<and> length (attempts (fst (main_loop (example_env always_500) empty_world))) = 5"
proof -
  have h: "\<forall>k. 1 \<le> k \<and> k \<le> MAX_RETRIES \<longrightarrow> probe_status (example_env always_500) k \<noteq> Some 200"
    by (simp add: status_always_500)
  note t = all_probes_fail_waits [OF h, of empty_world]
  from t have a: "sleeps (loop_events (example_env always_500) empty_world) = [30, 60, 90, 120]"
    by blast
  from t have b: "length (attempts (fst (main_loop (example_env always_500) empty_world)))
                    = MAX_RETRIES"
    by blast
  show ?thesis using a b by (simp add: status_always_500 MAX_RETRIES_def)
qed

theorem restart_after_every_failed_probe_witness:
  "Probe 1 None \<in> set (loop_events (example_env second_succeeds) empty_world)
   \<and> Restart 1 \<in> set (loop_events (example_env second_succeeds) empty_world)
   \<and> Probe 2 (Some 200) \<in> set (loop_events (example_env second_succeeds) empty_world)
   \<and> Restart 2 \<notin> set (loop_events (example_env second_succeeds) empty_world)
   \<and> restart_discipline (loop_events (example_env second_succeeds) empty_world)"
proof -
  note t = restart_after_every_failed_probe [of "example_env second_succeeds" empty_world]
  have p1: "Probe 1 None \<in> set (loop_events (example_env second_succeeds) empty_world)"
    and p2: "Probe 2 (Some 200) \<in> set (loop_events (example_env second_succeeds) empty_world)"
    by (simp_all add: loop_events_eq status_second_succeeds)
  from t p1 have r1: "Restart 1 \<in> set (loop_events (example_env second_succeeds) empty_world)"
    by (simp add: status_second_succeeds)
  from t have r2: "Restart 2 \<notin> set (loop_events (example_env second_succeeds) empty_world)"
    by (simp add: status_second_succeeds)
  from t p1 p2 r1 r2 show ?thesis by blast
qed

section \<open>Properties of the throttle policy\<close>

lemma dict_get_update_same: "dict_get (AList.update k v d) k dflt = v"
  by (simp add: dict_get_def update_conv')

lemma dict_get_update_other: "k' \<noteq> k \<Longrightarrow> dict_get (AList.update k v d) k' dflt = dict_get d k' dflt"
  by (simp add: dict_get_def update_conv')

lemma decision_not_failed:
  "\<not> py_bool (dict_get st ''last_failed'' (JBool False)) \<Longrightarrow>
     throttle_decision ios (JObject st) = Inr (False, AList.update ''counter'' (JInt 0) st)"
  by (simp add: throttle_decision_def)

lemma decision_failed:
  "py_bool (dict_get st ''last_failed'' (JBool False)) \<Longrightarrow>
   py_int ios (dict_get st ''counter'' (JInt 0)) = Inr c \<Longrightarrow>
     throttle_decision ios (JObject st) =
       Inr ((c + 1) mod RUN_EVERY_N_AFTER_FAILURE \<noteq> 0, AList.update ''counter'' (JInt (c + 1)) st)"
  by (simp add: throttle_decision_def Let_def)

lemma persisted_failed_fields:
  "dict_get (persisted_state (AList.update ''counter'' (JInt n) st) True ts) ''last_failed'' d = JBool True"
  "dict_get (persisted_state (AList.update ''counter'' (JInt n) st) True ts) ''counter'' d = JInt n"
  by (simp_all add: persisted_state_def dict_get_update_same dict_get_update_other)

lemma failure_streak_skips:
  "py_bool (dict_get st ''last_failed'' (JBool False)) \<Longrightarrow>
   py_int ios (dict_get st ''counter'' (JInt 0)) = Inr c \<Longrightarrow>
     failure_streak ios st tss =
       Inr (map (\<lambda>k. (c + 1 + int k) mod RUN_EVERY_N_AFTER_FAILURE \<noteq> 0) [0 ..< length tss])"
proof (induction tss arbitrary: st c)
  case Nil
  then show ?case by simp
next
  case (Cons ts tss)
  let ?st = "persisted_state (AList.update ''counter'' (JInt (c + 1)) st) True ts"
  have a: "py_bool (dict_get ?st ''last_failed'' (JBool False))"
    and b: "py_int ios (dict_get ?st ''counter'' (JInt 0)) = Inr (c + 1)"
    by (simp_all add: persisted_failed_fields)
  show ?case
    using Cons.prems Cons.IH [OF a b]
    by (simp add: decision_failed map_upt_Suc comp_def add.assoc del: upt_Suc)
qed

lemma one_in_ten:
  "length (filter (\<lambda>b. \<not> b) (map (\<lambda>k. (c + 1 + int k) mod 10 \<noteq> 0) [0 ..< 10])) = 1"
proof -
  define r where "r = c mod 10"
  have e: "((c + 1 + int k) mod 10 \<noteq> 0) = ((r + (1 + int k)) mod 10 \<noteq> 0)" for k
    unfolding r_def by (simp add: add.assoc mod_add_left_eq)
  have ten: "[0 ..< 10] = [0, 1, 2, 3, 4, 5, 6, 7, 8, 9::nat]"
    by (simp add: upt_rec)
  have "0 \<le> r" "r < 10" by (simp_all add: r_def)
  then have "r = 0 \<or> r = 1 \<or> r = 2 \<or> r = 3 \<or> r = 4 \<or> r = 5 \<or> r = 6 \<or> r = 7 \<or> r = 8 \<or> r = 9"
    by arith
  then have "length (filter (\<lambda>b. \<not> b) (map (\<lambda>k. (r + (1 + int k)) mod 10 \<noteq> 0) [0 ..< 10])) = 1"
    unfolding ten by (elim disjE) simp_all
  then show ?thesis by (simp only: e)
qed


lemma should_throttle_dict:
  "read_json env THROTTLE_FILE w = JObject st \<Longrightarrow>
     should_throttle env w = throttle_decision (int_of_str env) (JObject st)"
  by (simp add: should_throttle_def)

text \<open>
  Claim C4. Let the throttle file hold a dict. If its \<^verbatim>\<open>last_failed\<close> is false (or
  missing), \<^verbatim>\<open>should_throttle\<close> does not skip and sets the counter to 0. If it is true
  and the counter reads as the integer c (a missing counter reads as 0), the counter
  becomes c + 1 and the run is skipped exactly when c + 1 is not divisible by N = 10; and
  of any N consecutive invocations of a failure streak exactly one is not skipped.
\<close>

theorem should_throttle_gate:
  assumes "read_json env THROTTLE_FILE w = JObject st"
  shows
   "(\<not> py_bool (dict_get st ''last_failed'' (JBool False)) \<longrightarrow>
        should_throttle env w = Inr (False, AList.update ''counter'' (JInt 0) st))
    \<and> (\<forall>c. py_bool (dict_get st ''last_failed'' (JBool False))
            \<and> py_int (int_of_str env) (dict_get st ''counter'' (JInt 0)) = Inr c \<longrightarrow>
          should_throttle env w =
            Inr ((c + 1) mod RUN_EVERY_N_AFTER_FAILURE \<noteq> 0,
                 AList.update ''counter'' (JInt (c + 1)) st)
          \<and> (\<forall>tss. length tss = nat RUN_EVERY_N_AFTER_FAILURE \<longrightarrow>
                (\<exists>skips. failure_streak (int_of_str env) st tss = Inr skips
                   \<and> length skips = nat RUN_EVERY_N_AFTER_FAILURE
                   \<and> length (filter (\<lambda>b. \<not> b) skips) = 1)))"
proof (intro conjI allI impI)
  assume "\<not> py_bool (dict_get st ''last_failed'' (JBool False))"
  then show "should_throttle env w = Inr (False, AList.update ''counter'' (JInt 0) st)"
    by (simp add: should_throttle_dict [OF assms] decision_not_failed)
next
  fix c
  assume a: "py_bool (dict_get st ''last_failed'' (JBool False))
            \<and> py_int (int_of_str env) (dict_get st ''counter'' (JInt 0)) = Inr c"
  then show "should_throttle env w =
            Inr ((c + 1) mod RUN_EVERY_N_AFTER_FAILURE \<noteq> 0,
                 AList.update ''counter'' (JInt (c + 1)) st)"
    by (simp add: should_throttle_dict [OF assms] decision_failed)
  fix tss :: "string list"
  assume n: "length tss = nat RUN_EVERY_N_AFTER_FAILURE"
  from a have "failure_streak (int_of_str env) st tss =
       Inr (map (\<lambda>k. (c + 1 + int k) mod RUN_EVERY_N_AFTER_FAILURE \<noteq> 0) [0 ..< length tss])"
    by (simp add: failure_streak_skips)
  moreover from n have "length tss = 10" by (simp add: RUN_EVERY_N_AFTER_FAILURE_def)
  ultimately show "\<exists>skips. failure_streak (int_of_str env) st tss = Inr skips
                   \<and> length skips = nat RUN_EVERY_N_AFTER_FAILURE
                   \<and> length (filter (\<lambda>b. \<not> b) skips) = 1"
    using one_in_ten [of c] by (simp add: RUN_EVERY_N_AFTER_FAILURE_def)
qed

lemma read_reading:
  "read_json (reading v env) THROTTLE_FILE throttle_file_world = v"
  by (simp add: read_json_def reading_def throttle_file_world_def)

theorem should_throttle_gate_witness:
  "should_throttle (reading (JObject streak_state) (example_env always_500)) throttle_file_world
     = Inr (True, [(''last_failed'', JBool True), (''counter'', JInt 4)])
   \<and> should_throttle (reading (JObject healthy_state) (example_env always_500)) throttle_file_world
     = Inr (False, [(''last_failed'', JBool False), (''counter'', JInt 0)])
   \<and> (\<exists>skips. failure_streak (\<lambda>s. None) streak_state (replicate 10 ''t'') = Inr skips
         \<and> length (filter (\<lambda>b. \<not> b) skips) = 1)"
proof -
  let ?E = "reading (JObject streak_state) (example_env always_500)"
  let ?H = "reading (JObject healthy_state) (example_env always_500)"
  have ios: "int_of_str ?E = (\<lambda>s. None)"
    by (simp add: reading_def example_env_def)
  have s: "py_bool (dict_get streak_state ''last_failed'' (JBool False))
            \<and> py_int (int_of_str ?E) (dict_get streak_state ''counter'' (JInt 0)) = Inr 3"
    by (simp add: streak_state_def dict_get_def)
  have h: "\<not> py_bool (dict_get healthy_state ''last_failed'' (JBool False))"
    by (simp add: healthy_state_def dict_get_def)
  have n: "length (replicate 10 ''t'') = nat RUN_EVERY_N_AFTER_FAILURE"
    by (simp add: RUN_EVERY_N_AFTER_FAILURE_def)
  note ts = should_throttle_gate [OF read_reading [of "JObject streak_state" "example_env always_500"]]
  note th = should_throttle_gate [OF read_reading [of "JObject healthy_state" "example_env always_500"]]
  from ts s have a: "should_throttle ?E throttle_file_world =
            Inr ((3 + 1) mod RUN_EVERY_N_AFTER_FAILURE \<noteq> 0,
                 AList.update ''counter'' (JInt (3 + 1)) streak_state)"
    by blast
  from ts s n have b: "\<exists>skips. failure_streak (int_of_str ?E) streak_state (replicate 10 ''t'') = Inr skips
                   \<and> length skips = nat RUN_EVERY_N_AFTER_FAILURE
                   \<and> length (filter (\<lambda>b. \<not> b) skips) = 1"
    by blast
  from th h have c: "should_throttle ?H throttle_file_world
     = Inr (False, AList.update ''counter'' (JInt 0) healthy_state)"
    by blast
  from a b c show ?thesis
    unfolding ios
    by (auto simp: RUN_EVERY_N_AFTER_FAILURE_def streak_state_def healthy_state_def)
qed

text \<open>
  Claim C10. \<^verbatim>\<open>read_json\<close> returns a value on every input: the empty dict when the file
  cannot be opened or parsed, and otherwise whatever \<^verbatim>\<open>json.load\<close> produced, dict or not.
  On a throttle file whose value is not a dict, \<^verbatim>\<open>should_throttle\<close> raises
  AttributeError at \<^verbatim>\<open>state.get\<close>.
\<close>

theorem read_json_total_but_unchecked:
  "(files w p = None \<longrightarrow> read_json env p w = JObject [])
   \<and> (\<forall>t. files w p = Some t \<and> loads env t = None \<longrightarrow> read_json env p w = JObject [])
   \<and> (\<forall>t v. files w p = Some t \<and> loads env t = Some v \<longrightarrow> read_json env p w = v)
   \<and> ((\<forall>kvs. read_json env THROTTLE_FILE w \<noteq> JObject kvs) \<longrightarrow>
         should_throttle env w = Inl AttributeError)"
proof -
  have "should_throttle env w = Inl AttributeError"
    if "\<forall>kvs. read_json env THROTTLE_FILE w \<noteq> JObject kvs"
    using that
    by (cases "read_json env THROTTLE_FILE w")
       (simp_all add: should_throttle_def throttle_decision_def)
  then show ?thesis
    by (auto simp: read_json_def)
qed

theorem read_json_total_but_unchecked_witness:
  "read_json (example_env always_500) THROTTLE_FILE empty_world = JObject []
   \<and> read_json (example_env always_500) THROTTLE_FILE throttle_file_world = JObject []
   \<and> read_json (reading (JArray [JInt 1]) (example_env always_500)) THROTTLE_FILE throttle_file_world
       = JArray [JInt 1]
   \<and> should_throttle (reading (JArray [JInt 1]) (example_env always_500)) throttle_file_world
       = Inl AttributeError"
proof -
  let ?A = "reading (JArray [JInt 1]) (example_env always_500)"
  note t0 = read_json_total_but_unchecked [of empty_world THROTTLE_FILE "example_env always_500"]
  note t1 = read_json_total_but_unchecked [of throttle_file_world THROTTLE_FILE "example_env always_500"]
  note t2 = read_json_total_but_unchecked [of throttle_file_world THROTTLE_FILE ?A]
  have f0: "files empty_world THROTTLE_FILE = None"
    by (simp add: empty_world_def)
  have f1: "files throttle_file_world THROTTLE_FILE = Some ''...''
            \<and> loads (example_env always_500) ''...'' = None"
    by (simp add: throttle_file_world_def example_env_def)
  have f2: "files throttle_file_world THROTTLE_FILE = Some ''...''
            \<and> loads ?A ''...'' = Some (JArray [JInt 1])"
    by (simp add: throttle_file_world_def reading_def)
  from t0 f0 have a: "read_json (example_env always_500) THROTTLE_FILE empty_world = JObject []"
    by blast
  from t1 f1 have b: "read_json (example_env always_500) THROTTLE_FILE throttle_file_world = JObject []"
    by blast
  from t2 f2 have c: "read_json ?A THROTTLE_FILE throttle_file_world = JArray [JInt 1]"
    by blast
  then have "\<forall>kvs. read_json ?A THROTTLE_FILE throttle_file_world \<noteq> JObject kvs"
    by simp
  with t2 have d: "should_throttle ?A throttle_file_world = Inl AttributeError"
    by blast
  from a b c d show ?thesis by blast
qed

section \<open>Properties of the run driver\<close>

lemma paths_distinct:
  "THROTTLE_FILE \<noteq> STATUS_FILE" "THROTTLE_FILE \<noteq> STATUS_FILE @ ''.tmp''"
  "THROTTLE_FILE \<noteq> LOCK_FILE" "STATUS_FILE \<noteq> LOCK_FILE"
  "STATUS_FILE \<noteq> THROTTLE_FILE" "STATUS_FILE \<noteq> THROTTLE_FILE @ ''.tmp''"
  "THROTTLE_FILE \<noteq> THROTTLE_FILE @ ''.tmp''" "STATUS_FILE \<noteq> STATUS_FILE @ ''.tmp''"
  by (simp_all add: THROTTLE_FILE_def STATUS_FILE_def LOCK_FILE_def)


lemma update_fst:
  "fst (update_throttle_state env st lf w) =
     (case write_fault env THROTTLE_FILE of None \<Rightarrow> Inr () | Some f \<Rightarrow> Inl OSError)"
  by (simp add: update_throttle_state_def utc_now_iso_def Let_def write_fst)

lemma update_files_other:
  "q \<noteq> THROTTLE_FILE \<Longrightarrow> q \<noteq> THROTTLE_FILE @ ''.tmp'' \<Longrightarrow>
     files (snd (update_throttle_state env st lf w)) q = files w q"
  by (simp add: update_throttle_state_def utc_now_iso_def Let_def write_other)

lemma update_files_fault:
  "write_fault env THROTTLE_FILE = Some f \<Longrightarrow>
     files (snd (update_throttle_state env st lf w)) THROTTLE_FILE = files w THROTTLE_FILE"
  by (simp add: update_throttle_state_def utc_now_iso_def Let_def write_faulted_target)



lemma status_fst:
  "fst (write_status env ok details w) =
     (case write_fault env STATUS_FILE of None \<Rightarrow> Inr () | Some f \<Rightarrow> Inl OSError)"
  by (simp add: write_status_def utc_now_iso_def Let_def write_fst)

lemma status_files_other:
  "q \<noteq> STATUS_FILE \<Longrightarrow> q \<noteq> STATUS_FILE @ ''.tmp'' \<Longrightarrow>
     files (snd (write_status env ok details w)) q = files w q"
  by (simp add: write_status_def utc_now_iso_def Let_def write_other)

lemma status_files_fault:
  "write_fault env STATUS_FILE = Some f \<Longrightarrow>
     files (snd (write_status env ok details w)) STATUS_FILE = files w STATUS_FILE"
  by (simp add: write_status_def utc_now_iso_def Let_def write_faulted_target)


lemma acquire_fst: "fst (acquire_lock env w) = contended env"
  by (simp add: acquire_lock_def contended_def Let_def split: option.splits flock_outcome.splits)

lemma acquire_files:
  "p \<noteq> LOCK_FILE \<Longrightarrow> files (snd (snd (acquire_lock env w))) p = files w p"
  by (simp add: acquire_lock_def Let_def split: option.splits flock_outcome.splits)

lemma acquire_trace: "trace (snd (snd (acquire_lock env w))) = trace w"
  by (simp add: acquire_lock_def Let_def split: option.splits flock_outcome.splits)


lemma read_json_files: "files w' p = files w p \<Longrightarrow> read_json env p w' = read_json env p w"
  by (simp add: read_json_def)

lemma should_throttle_after_lock:
  "should_throttle env (snd (snd (acquire_lock env w))) = should_throttle env w"
  by (simp add: should_throttle_def read_json_files [OF acquire_files] paths_distinct)


lemma retry_loop_files: "files (snd (retry_loop env is sw)) = files (snd sw)"
  by (induction "is" arbitrary: sw)
     (simp_all add: retry_loop_Cons attempt_files del: retry_loop.simps(2))


lemma main_loop_files: "files (snd (main_loop env w)) = files w"
  by (simp add: main_loop_def retry_loop_files)


lemma pair_fst_snd: "(case p of (Inl e, w) \<Rightarrow> f e w | (Inr u, w) \<Rightarrow> g u w)
   = (case fst p of Inl e \<Rightarrow> f e (snd p) | Inr u \<Rightarrow> g u (snd p))"
  by (cases p) (simp split: sum.splits)

lemma main_result:
  "fst (main env w) =
     (if contended env then Inr 0
      else case should_throttle env w of
             Inl e \<Rightarrow> Inl e
           | Inr (skip, st) \<Rightarrow>
               if write_fault env STATUS_FILE = None \<and> write_fault env THROTTLE_FILE = None
               then (if skip then Inr 0
                     else if (\<exists>k \<in> {1 .. MAX_RETRIES}. probe_status env k = Some 200) then Inr 0
                     else Inr 1)
               else Inl OSError)"
  by (simp add: main_def case_prod_beta Let_def acquire_fst should_throttle_after_lock
        pair_fst_snd update_fst status_fst main_loop_succeeded
        split: sum.splits option.splits)

lemma main_status_untouched:
  "write_fault env STATUS_FILE = Some f \<Longrightarrow>
     files (snd (main env w)) STATUS_FILE = files w STATUS_FILE"
  by (simp add: main_def case_prod_beta Let_def pair_fst_snd acquire_files paths_distinct
        status_files_fault update_files_other main_loop_files
        split: sum.splits)

lemma main_throttle_untouched:
  "write_fault env THROTTLE_FILE = Some f \<Longrightarrow>
     files (snd (main env w)) THROTTLE_FILE = files w THROTTLE_FILE"
  by (simp add: main_def case_prod_beta Let_def pair_fst_snd acquire_files paths_distinct
        update_files_fault status_files_other main_loop_files
        split: sum.splits)



lemma main_raise_trace:
  "should_throttle env w = Inl e \<Longrightarrow> trace (snd (main env w)) = trace w"
  by (simp add: main_def case_prod_beta Let_def acquire_fst should_throttle_after_lock
        acquire_trace)



lemma example_contended:
  "contended locked_out_env" "\<not> contended (example_env probes)"
  "\<not> contended (reading v (example_env probes))" "\<not> contended status_write_fails"
  "\<not> contended throttle_write_fails"
  by (simp_all add: contended_def locked_out_env_def example_env_def reading_def
        status_write_fails_def throttle_write_fails_def)

lemma example_no_fault:
  "write_fault (example_env probes) p = None"
  "write_fault (reading v (example_env probes)) p = None"
  by (simp_all add: example_env_def reading_def)

lemma example_status_fault:
  "write_fault status_write_fails STATUS_FILE = Some At_open"
  "write_fault status_write_fails THROTTLE_FILE = None"
  by (simp_all add: status_write_fails_def paths_distinct)

lemma example_throttle_fault:
  "write_fault throttle_write_fails THROTTLE_FILE = Some At_replace"
  "write_fault throttle_write_fails STATUS_FILE = None"
  by (simp_all add: throttle_write_fails_def paths_distinct)

lemma example_read_empty:
  "read_json (example_env probes) THROTTLE_FILE empty_world = JObject []"
  "read_json status_write_fails THROTTLE_FILE empty_world = JObject []"
  by (simp_all add: read_json_def empty_world_def)

lemma example_gate_open:
  "should_throttle (example_env probes) empty_world = Inr (False, [(''counter'', JInt 0)])"
  "should_throttle status_write_fails empty_world = Inr (False, [(''counter'', JInt 0)])"
  by (simp_all add: should_throttle_def example_read_empty throttle_decision_def dict_get_def)

lemma example_gate_skip:
  "should_throttle (reading (JObject streak_state) (example_env probes)) throttle_file_world
     = Inr (True, [(''last_failed'', JBool True), (''counter'', JInt 4)])"
  using should_throttle_dict [OF read_reading [of "JObject streak_state" "example_env probes"]]
  by (simp add: throttle_decision_def dict_get_def streak_state_def reading_def
        example_env_def RUN_EVERY_N_AFTER_FAILURE_def)

lemma example_gate_skip_fault:
  "should_throttle throttle_write_fails throttle_file_world
     = Inr (True, [(''last_failed'', JBool True), (''counter'', JInt 4)])"
proof -
  have r: "read_json throttle_write_fails THROTTLE_FILE throttle_file_world = JObject streak_state"
    by (simp add: read_json_def throttle_write_fails_def reading_def throttle_file_world_def)
  show ?thesis
    unfolding should_throttle_def r
    by (simp add: throttle_decision_def dict_get_def streak_state_def throttle_write_fails_def
          reading_def example_env_def RUN_EVERY_N_AFTER_FAILURE_def)
qed

lemma example_gate_raises:
  "should_throttle (reading (JArray [JInt 1]) (example_env probes)) throttle_file_world
     = Inl AttributeError"
  by (simp add: should_throttle_def read_reading throttle_decision_def)

lemma status_write_fails_probe:
  "probe_status status_write_fails i = (if i = 2 then Some 200 else None)"
  by (simp add: probe_status_def status_write_fails_def example_env_def second_succeeds_def)

lemma some_success: "\<exists>k \<in> {1 .. MAX_RETRIES}. probe_status (example_env second_succeeds) k = Some 200"
  by (rule bexI [of _ 2]) (simp_all add: status_second_succeeds MAX_RETRIES_def)

text \<open>
  Claim C6 says that the exit status is 0 when the run succeeds and is 1 exactly when the
  attempts are exhausted. In the first run below the second probe returns 200 and the
  loop ends with success, but the write of the status file raises: the exception leaves
  \<^verbatim>\<open>main\<close> and the exit status is 1. In the second run the throttle file holds a JSON
  array: \<^verbatim>\<open>should_throttle\<close> raises, no probe is made, and the exit status is 1.
\<close>

theorem exit_status_one_without_exhaustion:
  "probe_status status_write_fails 2 = Some 200
   \<and> succeeded (fst (main_loop status_write_fails empty_world))
   \<and> exit_status (fst (main status_write_fails empty_world)) = 1
   \<and> exit_status (fst (main (reading (JArray [JInt 1]) (example_env always_500))
                              throttle_file_world)) = 1
   \<and> trace (snd (main (reading (JArray [JInt 1]) (example_env always_500))
                     throttle_file_world)) = []"
proof -
  have a: "succeeded (fst (main_loop status_write_fails empty_world))"
    unfolding main_loop_succeeded
    by (rule bexI [of _ 2]) (simp_all add: status_write_fails_probe MAX_RETRIES_def)
  have b: "fst (main status_write_fails empty_world) = Inl OSError"
    by (simp add: main_result example_contended example_gate_open example_status_fault)
  have c: "fst (main (reading (JArray [JInt 1]) (example_env always_500)) throttle_file_world)
             = Inl AttributeError"
    by (simp add: main_result example_contended example_gate_raises)
  have d: "trace (snd (main (reading (JArray [JInt 1]) (example_env always_500))
                     throttle_file_world)) = []"
    using main_raise_trace [OF example_gate_raises, of always_500]
    by (simp add: throttle_file_world_def)
  from a b c d show ?thesis
    by (simp add: exit_status_def status_write_fails_probe)
qed

text \<open>
  Claim C6, amended. The exit status is 0 when the lock is contended. Otherwise, when
  \<^verbatim>\<open>should_throttle\<close> raises or the write of the status file or of the throttle file
  raises, the exception leaves \<^verbatim>\<open>main\<close> and the exit status is 1, whatever the probes
  returned. When nothing raises, the exit status is 0 for a skipped run and for a run in
  which a probe returns 200, and 1 for a run that exhausts its \<open>MAX_RETRIES\<close> attempts.
\<close>

theorem main_exit_status:
  "exit_status (fst (main env w)) =
     (if contended env then 0
      else case should_throttle env w of
             Inl e \<Rightarrow> 1
           | Inr (skip, st) \<Rightarrow>
               if write_fault env STATUS_FILE = None \<and> write_fault env THROTTLE_FILE = None
               then (if skip then 0
                     else if (\<exists>k \<in> {1 .. MAX_RETRIES}. probe_status env k = Some 200) then 0
                     else 1)
               else 1)
   \<and> (exit_status (fst (main env w)) = 0 \<or> exit_status (fst (main env w)) = 1)"
proof -
  have a: "exit_status (fst (main env w)) =
     (if contended env then 0
      else case should_throttle env w of
             Inl e \<Rightarrow> 1
           | Inr (skip, st) \<Rightarrow>
               if write_fault env STATUS_FILE = None \<and> write_fault env THROTTLE_FILE = None
               then (if skip then 0
                     else if (\<exists>k \<in> {1 .. MAX_RETRIES}. probe_status env k = Some 200) then 0
                     else 1)
               else 1)"
  proof (cases "should_throttle env w")
    case (Inl e)
    then show ?thesis by (simp add: main_result exit_status_def)
  next
    case (Inr r)
    then show ?thesis
      by (cases r) (simp add: main_result exit_status_def)
  qed
  have b: "exit_status (fst (main env w)) = 0 \<or> exit_status (fst (main env w)) = 1"
  proof (cases "should_throttle env w")
    case (Inl e)
    then show ?thesis by (simp add: a)
  next
    case (Inr r)
    then show ?thesis
      by (cases r) (simp add: a)
  qed
  from a b show ?thesis by (rule conjI)
qed

theorem main_exit_status_witness:
  "exit_status (fst (main locked_out_env empty_world)) = 0
   \<and> exit_status (fst (main (reading (JObject streak_state) (example_env always_500))
                              throttle_file_world)) = 0
   \<and> exit_status (fst (main (example_env second_succeeds) empty_world)) = 0
   \<and> exit_status (fst (main (example_env always_500) empty_world)) = 1
   \<and> exit_status (fst (main throttle_write_fails throttle_file_world)) = 1"
proof -
  have a: "exit_status (fst (main locked_out_env empty_world)) = 0"
    using main_exit_status [of locked_out_env empty_world]
    by (simp add: example_contended)
  have b: "exit_status (fst (main (reading (JObject streak_state) (example_env always_500))
                              throttle_file_world)) = 0"
    using main_exit_status [of "reading (JObject streak_state) (example_env always_500)"
                               throttle_file_world]
    by (simp add: example_no_fault example_contended example_gate_skip)
  have c: "exit_status (fst (main (example_env second_succeeds) empty_world)) = 0"
    using main_exit_status [of "example_env second_succeeds" empty_world] some_success
    by (simp add: example_no_fault example_contended example_gate_open)
  have d: "exit_status (fst (main (example_env always_500) empty_world)) = 1"
    using main_exit_status [of "example_env always_500" empty_world]
    by (simp add: example_no_fault example_contended example_gate_open status_always_500)
  have e: "exit_status (fst (main throttle_write_fails throttle_file_world)) = 1"
    using main_exit_status [of throttle_write_fails throttle_file_world]
    by (simp add: example_contended example_gate_skip_fault example_throttle_fault)
  from a b c d e show ?thesis by blast
qed

text \<open>
  Claim C8 says that a fault such as a failing write is caught by \<^verbatim>\<open>main\<close> and turned
  into a failed outcome and a non-zero exit status. In the run below the second probe
  returns 200 and the write of the status file fails: \<^verbatim>\<open>main\<close> returns nothing, the
  OSError leaves it, and no status file exists afterwards.
\<close>

theorem main_crashes_on_status_write_failure:
  "fst (main status_write_fails empty_world) = Inl OSError
   \<and> files (snd (main status_write_fails empty_world)) STATUS_FILE = None"
proof -
  have a: "fst (main status_write_fails empty_world) = Inl OSError"
    by (simp add: main_result example_contended example_gate_open example_status_fault)
  have b: "files (snd (main status_write_fails empty_world)) STATUS_FILE = None"
    using main_status_untouched [OF example_status_fault(1), of empty_world]
    by (simp add: empty_world_def)
  from a b show ?thesis by (rule conjI)
qed

text \<open>
  Claim C8, amended: \<^verbatim>\<open>main\<close> has no handler at its boundary. An exception e leaves
  \<^verbatim>\<open>main\<close> exactly when the lock is not contended and either \<^verbatim>\<open>should_throttle\<close> raises
  e, or \<^verbatim>\<open>should_throttle\<close> returns and the write of the status file or of the throttle
  file raises, e being that OSError. Nothing is written in place of the failed write: a
  status file whose write raises is left as it was, and so is a throttle file whose write
  raises.
\<close>

theorem main_uncaught_exceptions:
  "(\<forall>e. fst (main env w) = Inl e \<longleftrightarrow>
       \<not> contended env
       \<and> (should_throttle env w = Inl e
          \<or> (\<exists>skip st. should_throttle env w = Inr (skip, st)) \<and> e = OSError
            \<and> \<not> (write_fault env STATUS_FILE = None \<and> write_fault env THROTTLE_FILE = None)))
   \<and> (\<forall>f. write_fault env STATUS_FILE = Some f \<longrightarrow>
         files (snd (main env w)) STATUS_FILE = files w STATUS_FILE)
   \<and> (\<forall>f. write_fault env THROTTLE_FILE = Some f \<longrightarrow>
         files (snd (main env w)) THROTTLE_FILE = files w THROTTLE_FILE)"
proof (intro conjI allI impI)
  fix e
  show "fst (main env w) = Inl e \<longleftrightarrow>
       \<not> contended env
       \<and> (should_throttle env w = Inl e
          \<or> (\<exists>skip st. should_throttle env w = Inr (skip, st)) \<and> e = OSError
            \<and> \<not> (write_fault env STATUS_FILE = None \<and> write_fault env THROTTLE_FILE = None))"
    unfolding main_result
    by (cases "should_throttle env w") (auto split: if_splits)
next
  fix f
  assume "write_fault env STATUS_FILE = Some f"
  then show "files (snd (main env w)) STATUS_FILE = files w STATUS_FILE"
    by (rule main_status_untouched)
next
  fix f
  assume "write_fault env THROTTLE_FILE = Some f"
  then show "files (snd (main env w)) THROTTLE_FILE = files w THROTTLE_FILE"
    by (rule main_throttle_untouched)
qed

theorem main_uncaught_exceptions_witness:
  "fst (main status_write_fails empty_world) = Inl OSError
   \<and> files (snd (main status_write_fails empty_world)) STATUS_FILE
        = files empty_world STATUS_FILE
   \<and> fst (main throttle_write_fails throttle_file_world) = Inl OSError
   \<and> files (snd (main throttle_write_fails throttle_file_world)) THROTTLE_FILE
        = files throttle_file_world THROTTLE_FILE
   \<and> fst (main (reading (JArray [JInt 1]) (example_env always_500)) throttle_file_world)
        = Inl AttributeError"
proof -
  note s = main_uncaught_exceptions [of status_write_fails empty_world]
  note t = main_uncaught_exceptions [of throttle_write_fails throttle_file_world]
  note r = main_uncaught_exceptions
             [of "reading (JArray [JInt 1]) (example_env always_500)" throttle_file_world]
  have hs: "\<not> contended status_write_fails
          \<and> should_throttle status_write_fails empty_world = Inr (False, [(''counter'', JInt 0)])
          \<and> write_fault status_write_fails STATUS_FILE = Some At_open"
    by (simp add: example_contended example_gate_open example_status_fault)
  have ht: "\<not> contended throttle_write_fails
          \<and> should_throttle throttle_write_fails throttle_file_world
               = Inr (True, [(''last_failed'', JBool True), (''counter'', JInt 4)])
          \<and> write_fault throttle_write_fails THROTTLE_FILE = Some At_replace"
    by (simp add: example_contended example_gate_skip_fault example_throttle_fault)
  have hr: "\<not> contended (reading (JArray [JInt 1]) (example_env always_500))
          \<and> should_throttle (reading (JArray [JInt 1]) (example_env always_500)) throttle_file_world
              = Inl AttributeError"
    by (simp add: example_contended example_gate_raises)
  from s hs have a: "fst (main status_write_fails empty_world) = Inl OSError"
    by auto
  from s hs have b: "files (snd (main status_write_fails empty_world)) STATUS_FILE
        = files empty_world STATUS_FILE"
    by blast
  from t ht have c: "fst (main throttle_write_fails throttle_file_world) = Inl OSError"
    by auto
  from t ht have d: "files (snd (main throttle_write_fails throttle_file_world)) THROTTLE_FILE
        = files throttle_file_world THROTTLE_FILE"
    by blast
  from r hr have e: "fst (main (reading (JArray [JInt 1]) (example_env always_500)) throttle_file_world)
        = Inl AttributeError"
    by auto
  from a b c d e show ?thesis by blast
qed


end
